theory Spec2Isabelle
  imports Main "HOL-Library.Word"
begin

unbundle bit_operations_syntax

section \<open>Parameters and basic types\<close>

text \<open>
  The sources are the threshold (3-share) Keccak permutation of
  \<^verbatim>\<open>fips202-threshold.c\<close>, the F-chain driver of \<^verbatim>\<open>f-threshold.c\<close>, the PRF tree of
  \<^verbatim>\<open>prf.c\<close> and the WOTS leaf generator of \<^verbatim>\<open>wotsx1.c\<close>.  A \<^verbatim>\<open>uint64_t\<close> is a
  \<open>64 word\<close>, an \<^verbatim>\<open>unsigned char\<close> an \<open>8 word\<close>, a C array a list indexed from 0.
\<close>

type_synonym lane = "64 word"
type_synonym byte = "8 word"

text \<open>
  Modelled from the spec: \<^verbatim>\<open>params.h\<close> is not among the sources, so the compile-time
  constants of one parameter set are the fields of a record that every function takes.
  The spec (section 3) gives \<open>n \<in> {16, 24, 32}\<close>, a 32-byte address and one byte offset
  \<^verbatim>\<open>SPX_OFFSET_HASH_ADDR\<close> inside it.
\<close>

record spx_params =
  SPX_N :: nat
  SPX_D :: nat
  SPX_FULL_HEIGHT :: nat
  SPX_TREE_HEIGHT :: nat
  SPX_WOTS_LEN :: nat
  SPX_OFFSET_HASH_ADDR :: nat

text \<open>\<^verbatim>\<open>#define N (SPX_N/8)\<close> and \<^verbatim>\<open>#define OFFSET_HASH (N + 32/8)\<close> of \<^verbatim>\<open>f-threshold.c\<close>.\<close>

definition N :: "spx_params \<Rightarrow> nat" where
  "N P = SPX_N P div 8"

definition OFFSET_HASH :: "spx_params \<Rightarrow> nat" where
  "OFFSET_HASH P = N P + 32 div 8"

section \<open>The threshold Keccak permutation (fips202-threshold.c)\<close>

text \<open>\<^verbatim>\<open>#define ROL(a, offset) (((a) << (offset)) ^ ((a) >> (64 - (offset))))\<close>; the source
  only uses offsets from 1 to 63.\<close>

definition ROL :: "lane \<Rightarrow> nat \<Rightarrow> lane" where
  "ROL a offset = push_bit offset a XOR drop_bit (64 - offset) a"

definition KeccakF_RoundConstants :: "lane list" where
  "KeccakF_RoundConstants =
    [0x0000000000000001, 0x0000000000008082,
     0x800000000000808a, 0x8000000080008000,
     0x000000000000808b, 0x0000000080000001,
     0x8000000080008081, 0x8000000000008009,
     0x000000000000008a, 0x0000000000000088,
     0x0000000080008009, 0x000000008000000a,
     0x000000008000808b, 0x800000000000008b,
     0x8000000000008089, 0x8000000000008003,
     0x8000000000008002, 0x8000000000000080,
     0x000000000000800a, 0x800000008000000a,
     0x8000000080008081, 0x8000000000008080,
     0x0000000080000001, 0x8000000080008008]"

text \<open>
  \<^verbatim>\<open>DECLARE(x)\<close> gives each of the three shares 25 state variables \<^verbatim>\<open>Aba .. Asu\<close>: five
  rows \<open>b, g, k, m, s\<close> of five lanes \<open>a, e, i, o, u\<close>.  A row is a 5-tuple and a share
  five rows.  The \<^verbatim>\<open>BC\<close>, \<^verbatim>\<open>D\<close> and \<^verbatim>\<open>E\<close> variables of a share are rows as well.
\<close>

type_synonym row = "lane \<times> lane \<times> lane \<times> lane \<times> lane"
type_synonym share = "row \<times> row \<times> row \<times> row \<times> row"

text \<open>\<^verbatim>\<open>LOADSTATE(x)\<close>: share \<open>x\<close> is \<^verbatim>\<open>instate[25*x .. 25*x + 24]\<close>.\<close>

definition LOADSTATE :: "lane list \<Rightarrow> nat \<Rightarrow> share" where
  "LOADSTATE instate x =
     ((instate ! (0 + 25 * x), instate ! (1 + 25 * x), instate ! (2 + 25 * x), instate ! (3 + 25 * x), instate ! (4 + 25 * x)),
      (instate ! (5 + 25 * x), instate ! (6 + 25 * x), instate ! (7 + 25 * x), instate ! (8 + 25 * x), instate ! (9 + 25 * x)),
      (instate ! (10 + 25 * x), instate ! (11 + 25 * x), instate ! (12 + 25 * x), instate ! (13 + 25 * x), instate ! (14 + 25 * x)),
      (instate ! (15 + 25 * x), instate ! (16 + 25 * x), instate ! (17 + 25 * x), instate ! (18 + 25 * x), instate ! (19 + 25 * x)),
      (instate ! (20 + 25 * x), instate ! (21 + 25 * x), instate ! (22 + 25 * x), instate ! (23 + 25 * x), instate ! (24 + 25 * x)))"

text \<open>
  The first ten assignments of \<^verbatim>\<open>STEP1(x)\<close>: the column parities \<^verbatim>\<open>BCa .. BCu\<close> and from
  them \<^verbatim>\<open>Da .. Du\<close>.
\<close>

definition theta_D :: "share \<Rightarrow> row" where
  "theta_D A =
     (case A of
      ((Aba, Abe, Abi, Abo, Abu),
       (Aga, Age, Agi, Ago, Agu),
       (Aka, Ake, Aki, Ako, Aku),
       (Ama, Ame, Ami, Amo, Amu),
       (Asa, Ase, Asi, Aso, Asu)) \<Rightarrow>
     (let BCa = Aba XOR Aga XOR Aka XOR Ama XOR Asa;
          BCe = Abe XOR Age XOR Ake XOR Ame XOR Ase;
          BCi = Abi XOR Agi XOR Aki XOR Ami XOR Asi;
          BCo = Abo XOR Ago XOR Ako XOR Amo XOR Aso;
          BCu = Abu XOR Agu XOR Aku XOR Amu XOR Asu
      in (BCu XOR ROL BCe 1, BCa XOR ROL BCi 1, BCe XOR ROL BCo 1,
          BCi XOR ROL BCu 1, BCo XOR ROL BCa 1)))"

text \<open>
  The rest of \<^verbatim>\<open>STEP1(x)\<close> and \<^verbatim>\<open>STEP2(x) .. STEP5(x)\<close>: each XORs a \<^verbatim>\<open>D\<close> into five lanes
  of \<open>A\<close> and leaves their rotations in \<^verbatim>\<open>BCa .. BCu\<close>.  Every lane of \<open>A\<close> is updated
  by exactly one step, which is also the only one to read it, and \<^verbatim>\<open>COPYBACK(x)\<close>
  overwrites all 25 lanes before the next round; so a step is a function from the share
  at the start of the round and its \<^verbatim>\<open>D\<close> row to the \<^verbatim>\<open>BC\<close> row.
\<close>

definition STEP1 :: "share \<Rightarrow> row \<Rightarrow> row" where
  "STEP1 A D =
     (case (A, D) of
      (((Aba, Abe, Abi, Abo, Abu),
       (Aga, Age, Agi, Ago, Agu),
       (Aka, Ake, Aki, Ako, Aku),
       (Ama, Ame, Ami, Amo, Amu),
       (Asa, Ase, Asi, Aso, Asu)),
       (Da, De, Di, Do, Du)) \<Rightarrow>
       (Aba XOR Da, ROL (Age XOR De) 44, ROL (Aki XOR Di) 43,
      ROL (Amo XOR Do) 21, ROL (Asu XOR Du) 14))"

definition STEP2 :: "share \<Rightarrow> row \<Rightarrow> row" where
  "STEP2 A D =
     (case (A, D) of
      (((Aba, Abe, Abi, Abo, Abu),
       (Aga, Age, Agi, Ago, Agu),
       (Aka, Ake, Aki, Ako, Aku),
       (Ama, Ame, Ami, Amo, Amu),
       (Asa, Ase, Asi, Aso, Asu)),
       (Da, De, Di, Do, Du)) \<Rightarrow>
       (ROL (Abo XOR Do) 28, ROL (Agu XOR Du) 20, ROL (Aka XOR Da) 3,
      ROL (Ame XOR De) 45, ROL (Asi XOR Di) 61))"

definition STEP3 :: "share \<Rightarrow> row \<Rightarrow> row" where
  "STEP3 A D =
     (case (A, D) of
      (((Aba, Abe, Abi, Abo, Abu),
       (Aga, Age, Agi, Ago, Agu),
       (Aka, Ake, Aki, Ako, Aku),
       (Ama, Ame, Ami, Amo, Amu),
       (Asa, Ase, Asi, Aso, Asu)),
       (Da, De, Di, Do, Du)) \<Rightarrow>
       (ROL (Abe XOR De) 1, ROL (Agi XOR Di) 6, ROL (Ako XOR Do) 25,
      ROL (Amu XOR Du) 8, ROL (Asa XOR Da) 18))"

definition STEP4 :: "share \<Rightarrow> row \<Rightarrow> row" where
  "STEP4 A D =
     (case (A, D) of
      (((Aba, Abe, Abi, Abo, Abu),
       (Aga, Age, Agi, Ago, Agu),
       (Aka, Ake, Aki, Ako, Aku),
       (Ama, Ame, Ami, Amo, Amu),
       (Asa, Ase, Asi, Aso, Asu)),
       (Da, De, Di, Do, Du)) \<Rightarrow>
       (ROL (Abu XOR Du) 27, ROL (Aga XOR Da) 36, ROL (Ake XOR De) 10,
      ROL (Ami XOR Di) 15, ROL (Aso XOR Do) 56))"

definition STEP5 :: "share \<Rightarrow> row \<Rightarrow> row" where
  "STEP5 A D =
     (case (A, D) of
      (((Aba, Abe, Abi, Abo, Abu),
       (Aga, Age, Agi, Ago, Agu),
       (Aka, Ake, Aki, Ako, Aku),
       (Ama, Ame, Ami, Amo, Amu),
       (Asa, Ase, Asi, Aso, Asu)),
       (Da, De, Di, Do, Du)) \<Rightarrow>
       (ROL (Abi XOR Di) 62, ROL (Ago XOR Do) 55, ROL (Aku XOR Du) 39,
      ROL (Ama XOR Da) 41, ROL (Ase XOR De) 2))"

text \<open>
  The five \<^verbatim>\<open>E\<close> assignments that follow a step in \<^verbatim>\<open>case Keccak_1\<close>, for instance
  \<^verbatim>\<open>Ega0 = BCa0 ^ ((~BCe0) & BCi0);\<close>.
\<close>

definition chi_row :: "row \<Rightarrow> row" where
  "chi_row BC =
     (case BC of
      (BCa, BCe, BCi, BCo, BCu) \<Rightarrow>
     (BCa XOR (NOT BCe AND BCi),
      BCe XOR (NOT BCi AND BCo),
      BCi XOR (NOT BCo AND BCu),
      BCo XOR (NOT BCu AND BCa),
      BCu XOR (NOT BCa AND BCe)))"

text \<open>
  The fifteen \<^verbatim>\<open>E\<close> assignments that follow a step in \<^verbatim>\<open>case Keccak_3\<close>, for instance
  \<^verbatim>\<open>Ega1 = BCa1 ^ (~BCe0 & BCi1) ^ (~BCe1 & BCi2) ^ (~BCe2 & BCi0);\<close>.  The source writes
  the same fifteen right-hand sides after each of the five steps.
\<close>

definition chi_row_3 :: "row \<Rightarrow> row \<Rightarrow> row \<Rightarrow> row \<times> row \<times> row" where
  "chi_row_3 BC0 BC1 BC2 =
     (case (BC0, BC1, BC2) of
      ((BCa0, BCe0, BCi0, BCo0, BCu0),
       (BCa1, BCe1, BCi1, BCo1, BCu1),
       (BCa2, BCe2, BCi2, BCo2, BCu2)) \<Rightarrow>
     ((BCa0 XOR (NOT BCe0 AND BCi0) XOR (NOT BCe1 AND BCi1) XOR (NOT BCe2 AND BCi2),
       BCe0 XOR (NOT BCi0 AND BCo0) XOR (NOT BCi1 AND BCo1) XOR (NOT BCi2 AND BCo2),
       BCi0 XOR (NOT BCo0 AND BCu0) XOR (NOT BCo1 AND BCu1) XOR (NOT BCo2 AND BCu2),
       BCo0 XOR (NOT BCu0 AND BCa0) XOR (NOT BCu1 AND BCa1) XOR (NOT BCu2 AND BCa2),
       BCu0 XOR (NOT BCa0 AND BCe0) XOR (NOT BCa1 AND BCe1) XOR (NOT BCa2 AND BCe2)),
      (BCa1 XOR (NOT BCe0 AND BCi1) XOR (NOT BCe1 AND BCi2) XOR (NOT BCe2 AND BCi0),
       BCe1 XOR (NOT BCi0 AND BCo1) XOR (NOT BCi1 AND BCo2) XOR (NOT BCi2 AND BCo0),
       BCi1 XOR (NOT BCo0 AND BCu1) XOR (NOT BCo1 AND BCu2) XOR (NOT BCo2 AND BCu0),
       BCo1 XOR (NOT BCu0 AND BCa1) XOR (NOT BCu1 AND BCa2) XOR (NOT BCu2 AND BCa0),
       BCu1 XOR (NOT BCa0 AND BCe1) XOR (NOT BCa1 AND BCe2) XOR (NOT BCa2 AND BCe0)),
      (BCa2 XOR (NOT BCe0 AND BCi2) XOR (NOT BCe1 AND BCi0) XOR (NOT BCe2 AND BCi1),
       BCe2 XOR (NOT BCi0 AND BCo2) XOR (NOT BCi1 AND BCo0) XOR (NOT BCi2 AND BCo1),
       BCi2 XOR (NOT BCo0 AND BCu2) XOR (NOT BCo1 AND BCu0) XOR (NOT BCo2 AND BCu1),
       BCo2 XOR (NOT BCu0 AND BCa2) XOR (NOT BCu1 AND BCa0) XOR (NOT BCu2 AND BCa1),
       BCu2 XOR (NOT BCa0 AND BCe2) XOR (NOT BCa1 AND BCe0) XOR (NOT BCa2 AND BCe1))))"

text \<open>\<^verbatim>\<open>Eba0 ^= KeccakF_RoundConstants[round];\<close>\<close>

definition xor_round_constant :: "lane \<Rightarrow> row \<Rightarrow> row" where
  "xor_round_constant rc E =
     (case E of (Eba, Ebe, Ebi, Ebo, Ebu) \<Rightarrow> (Eba XOR rc, Ebe, Ebi, Ebo, Ebu))"

text \<open>
  \<^verbatim>\<open>case Keccak_1\<close>: one round on the variables of share 0, then \<^verbatim>\<open>COPYBACK(0)\<close>.  The
  result is the new share 0; the variables of shares 1 and 2 are not touched.
\<close>

definition round_Keccak_1 :: "lane \<Rightarrow> share \<Rightarrow> share" where
  "round_Keccak_1 rc A0 =
     (let D0 = theta_D A0
      in (xor_round_constant rc (chi_row (STEP1 A0 D0)),
          chi_row (STEP2 A0 D0),
          chi_row (STEP3 A0 D0),
          chi_row (STEP4 A0 D0),
          chi_row (STEP5 A0 D0)))"

text \<open>
  \<^verbatim>\<open>case Keccak_3\<close>: one round on the three shares, then \<^verbatim>\<open>COPYBACK\<close> of all three.  The
  round constant goes into \<^verbatim>\<open>Eba0\<close> only.
\<close>

definition round_Keccak_3 :: "lane \<Rightarrow> share \<times> share \<times> share \<Rightarrow> share \<times> share \<times> share" where
  "round_Keccak_3 rc A =
     (case A of (A0, A1, A2) \<Rightarrow>
        let D0 = theta_D A0; D1 = theta_D A1; D2 = theta_D A2;
            (Eb0, Eb1, Eb2) = chi_row_3 (STEP1 A0 D0) (STEP1 A1 D1) (STEP1 A2 D2);
            (Eg0, Eg1, Eg2) = chi_row_3 (STEP2 A0 D0) (STEP2 A1 D1) (STEP2 A2 D2);
            (Ek0, Ek1, Ek2) = chi_row_3 (STEP3 A0 D0) (STEP3 A1 D1) (STEP3 A2 D2);
            (Em0, Em1, Em2) = chi_row_3 (STEP4 A0 D0) (STEP4 A1 D1) (STEP4 A2 D2);
            (Es0, Es1, Es2) = chi_row_3 (STEP5 A0 D0) (STEP5 A1 D1) (STEP5 A2 D2)
        in ((xor_round_constant rc Eb0, Eg0, Ek0, Em0, Es0),
            (Eb1, Eg1, Ek1, Em1, Es1),
            (Eb2, Eg2, Ek2, Em2, Es2)))"

text \<open>\<^verbatim>\<open>case Do_Xor\<close>: \<^verbatim>\<open>Aba0 ^= Aba1 ^ Aba2;\<close> and so on for the 25 lanes.\<close>

definition xor_row :: "row \<Rightarrow> row \<Rightarrow> row" where
  "xor_row A B =
     (case (A, B) of
      ((a0, a1, a2, a3, a4), (b0, b1, b2, b3, b4)) \<Rightarrow>
       (a0 XOR b0, a1 XOR b1, a2 XOR b2, a3 XOR b3, a4 XOR b4))"

definition xor_share :: "share \<Rightarrow> share \<Rightarrow> share" where
  "xor_share A B =
     (case (A, B) of
      ((Ab, Ag, Ak, Am, As), (Bb, Bg, Bk, Bm, Bs)) \<Rightarrow>
       (xor_row Ab Bb, xor_row Ag Bg, xor_row Ak Bk, xor_row Am Bm, xor_row As Bs))"

definition step_Do_Xor :: "share \<times> share \<times> share \<Rightarrow> share \<times> share \<times> share" where
  "step_Do_Xor A = (case A of (A0, A1, A2) \<Rightarrow> (xor_share A0 (xor_share A1 A2), A1, A2))"

text \<open>
  \<^verbatim>\<open>DO_OUTPUT(x)\<close> stores \<^verbatim>\<open>Aba, Abe, Abi, Abo\<close> of share \<open>x\<close> at
  \<^verbatim>\<open>outstate[25*x .. 25*x + 3]\<close>.
\<close>

definition DO_OUTPUT :: "share \<Rightarrow> nat \<Rightarrow> lane list \<Rightarrow> lane list" where
  "DO_OUTPUT A x outstate =
     (case A of
      ((Aba, Abe, Abi, Abo, Abu), Ag, Ak, Am, As) \<Rightarrow>
       outstate[0 + 25 * x := Aba, 1 + 25 * x := Abe, 2 + 25 * x := Abi, 3 + 25 * x := Abo])"

text \<open>
  The masking schedule is data: \<^verbatim>\<open>enum keccak_state\<close> and the two arrays compiled for
  \<^verbatim>\<open>BLINDED_ROUNDS == 3\<close>.
\<close>

datatype keccak_state = Keccak_3 | Keccak_1 | Do_Xor | Output_3 | Output_1

definition standard_output :: "keccak_state list" where
  "standard_output =
    [Keccak_3, Keccak_3, Keccak_3,
     Do_Xor,
     Keccak_1, Keccak_1, Keccak_1, Keccak_1, Keccak_1, Keccak_1, Keccak_1,
     Keccak_1, Keccak_1, Keccak_1, Keccak_1, Keccak_1, Keccak_1, Keccak_1,
     Keccak_1, Keccak_1, Keccak_1, Keccak_1, Keccak_1, Keccak_1, Keccak_1,
     Output_1]"

definition threshold_output :: "keccak_state list" where
  "threshold_output =
    [Keccak_3, Keccak_3, Keccak_3,
     Do_Xor,
     Keccak_1, Keccak_1, Keccak_1, Keccak_1, Keccak_1, Keccak_1,
     Keccak_1, Keccak_1, Keccak_1, Keccak_1, Keccak_1, Keccak_1,
     Keccak_1, Keccak_1, Keccak_1, Keccak_1, Keccak_1, Keccak_1,
     Do_Xor,
     Keccak_3, Keccak_3, Keccak_3,
     Output_3]"

text \<open>
  \<^verbatim>\<open>for (round = 0;;) { switch (*state++) ... }\<close>: the loop reads the schedule from the
  front until an output case returns.  Both arrays end in an output case; the empty
  schedule (reading past the array) does not arise and leaves \<^verbatim>\<open>outstate\<close> as it is.
  The three shares are the triple \<open>A\<close>: share 0 is \<open>fst A\<close>, share 1 \<open>fst (snd A)\<close>
  and share 2 \<open>snd (snd A)\<close>.
\<close>

primrec keccak_schedule ::
  "keccak_state list \<Rightarrow> nat \<Rightarrow> share \<times> share \<times> share \<Rightarrow> lane list \<Rightarrow> lane list"
where
  "keccak_schedule [] round A outstate = outstate"
| "keccak_schedule (s # state) round A outstate =
     (case s of
        Keccak_1 \<Rightarrow>
          keccak_schedule state (round + 1)
            (round_Keccak_1 (KeccakF_RoundConstants ! round) (fst A), snd A) outstate
      | Keccak_3 \<Rightarrow>
          keccak_schedule state (round + 1)
            (round_Keccak_3 (KeccakF_RoundConstants ! round) A) outstate
      | Do_Xor \<Rightarrow>
          keccak_schedule state round (step_Do_Xor A) outstate
      | Output_1 \<Rightarrow>
          DO_OUTPUT (fst A) 0 outstate
      | Output_3 \<Rightarrow>
          DO_OUTPUT (snd (snd A)) 2 (DO_OUTPUT (fst (snd A)) 1 (DO_OUTPUT (fst A) 0 outstate)))"

text \<open>
  \<^verbatim>\<open>do_threshold_keccak_permutation\<close>: \<^verbatim>\<open>instate\<close> holds the three shares; the result is
  the output array after the writes.  \<^verbatim>\<open>output_threshold\<close> is a C \<^verbatim>\<open>int\<close> tested for
  being nonzero.
\<close>

definition do_threshold_keccak_permutation :: "lane list \<Rightarrow> lane list \<Rightarrow> int \<Rightarrow> lane list" where
  "do_threshold_keccak_permutation instate outstate output_threshold =
     keccak_schedule (if output_threshold \<noteq> 0 then threshold_output else standard_output) 0
       (LOADSTATE instate 0, LOADSTATE instate 1, LOADSTATE instate 2) outstate"

section \<open>Auxiliary notions for the permutation\<close>

text \<open>The logical state of a share triple: \<open>A0 XOR A1 XOR A2\<close>, lane by lane.\<close>

definition logical_share :: "share \<times> share \<times> share \<Rightarrow> share" where
  "logical_share A = xor_share (fst A) (xor_share (fst (snd A)) (snd (snd A)))"

text \<open>The 25 lanes of a share in the order of \<^verbatim>\<open>instate\<close>, and the five lanes of a row.\<close>

definition lanes_of_share :: "share \<Rightarrow> lane list" where
  "lanes_of_share A =
     (case A of
      ((Aba, Abe, Abi, Abo, Abu),
       (Aga, Age, Agi, Ago, Agu),
       (Aka, Ake, Aki, Ako, Aku),
       (Ama, Ame, Ami, Amo, Amu),
       (Asa, Ase, Asi, Aso, Asu)) \<Rightarrow>
       [Aba, Abe, Abi, Abo, Abu,
        Aga, Age, Agi, Ago, Agu,
        Aka, Ake, Aki, Ako, Aku,
        Ama, Ame, Ami, Amo, Amu,
        Asa, Ase, Asi, Aso, Asu])"

definition lanes_of_row :: "row \<Rightarrow> lane list" where
  "lanes_of_row R = (case R of (a0, a1, a2, a3, a4) \<Rightarrow> [a0, a1, a2, a3, a4])"

text \<open>The logical state \<open>S = in[0..25) XOR in[25..50) XOR in[50..75)\<close> of an input array.\<close>

definition logical_state :: "lane list \<Rightarrow> lane list" where
  "logical_state instate =
     map (\<lambda>i. instate ! i XOR instate ! (25 + i) XOR instate ! (50 + i)) [0..<25]"

text \<open>\<open>k\<close> consecutive rounds starting with round number \<open>r\<close>, unmasked and masked.\<close>

definition rounds_Keccak_1 :: "nat \<Rightarrow> nat \<Rightarrow> share \<Rightarrow> share" where
  "rounds_Keccak_1 r k A0 =
     fold (\<lambda>i. round_Keccak_1 (KeccakF_RoundConstants ! i)) [r..<r + k] A0"

definition rounds_Keccak_3 ::
  "nat \<Rightarrow> nat \<Rightarrow> share \<times> share \<times> share \<Rightarrow> share \<times> share \<times> share" where
  "rounds_Keccak_3 r k A =
     fold (\<lambda>i. round_Keccak_3 (KeccakF_RoundConstants ! i)) [r..<r + k] A"

section \<open>The reference: Keccak-p[1600, 24] as FIPS 202 defines it\<close>

text \<open>
  The spec calls the result "the standard 24-round Keccak-p[1600] permutation".  This
  section writes that permutation down from FIPS 202 (section 3.2), independently of
  the C code: the five step mappings on a state of \<open>5 \<times> 5\<close> lanes of \<open>w = 64\<close> bits.
  The state is the list of its 25 lanes, lane \<open>(x, y)\<close> at index \<open>5 * y + x\<close>, and bit
  \<open>z\<close> of a lane is bit \<open>z\<close> of the word (section 3.1.2: \<open>A[x, y, z] = S[w(5y + x) + z]\<close>).
\<close>

definition fips_lane :: "lane list \<Rightarrow> nat \<Rightarrow> nat \<Rightarrow> lane" where
  "fips_lane S x y = S ! (5 * y + x)"

text \<open>\<open>\<theta>\<close>: \<open>C[x] = A[x,0] \<oplus> \<dots> \<oplus> A[x,4]\<close>, \<open>D[x] = C[x-1] \<oplus> rot(C[x+1], 1)\<close>,
  \<open>A'[x,y] = A[x,y] \<oplus> D[x]\<close>.\<close>

definition fips_C :: "lane list \<Rightarrow> nat \<Rightarrow> lane" where
  "fips_C S x =
     fips_lane S x 0 XOR fips_lane S x 1 XOR fips_lane S x 2 XOR fips_lane S x 3
       XOR fips_lane S x 4"

definition fips_D :: "lane list \<Rightarrow> nat \<Rightarrow> lane" where
  "fips_D S x = fips_C S ((x + 4) mod 5) XOR word_rotl 1 (fips_C S ((x + 1) mod 5))"

definition fips_theta :: "lane list \<Rightarrow> lane list" where
  "fips_theta S = map (\<lambda>i. S ! i XOR fips_D S (i mod 5)) [0..<25]"

text \<open>
  \<open>\<rho>\<close>: lane \<open>(0, 0)\<close> is kept; starting from \<open>(x, y) = (1, 0)\<close>, for \<open>t = 0 .. 23\<close>
  the lane at \<open>(x, y)\<close> is rotated by \<open>(t + 1)(t + 2)/2\<close> and \<open>(x, y)\<close> becomes
  \<open>(y, (2x + 3y) mod 5)\<close>.
\<close>

primrec fips_rho_pos :: "nat \<Rightarrow> nat \<times> nat" where
  "fips_rho_pos 0 = (1, 0)"
| "fips_rho_pos (Suc t) = (case fips_rho_pos t of (x, y) \<Rightarrow> (y, (2 * x + 3 * y) mod 5))"

definition fips_rho_offset :: "nat \<Rightarrow> nat \<Rightarrow> nat" where
  "fips_rho_offset x y =
     (case find (\<lambda>t. fips_rho_pos t = (x, y)) [0..<24] of
        None \<Rightarrow> 0
      | Some t \<Rightarrow> ((t + 1) * (t + 2) div 2) mod 64)"

definition fips_rho :: "lane list \<Rightarrow> lane list" where
  "fips_rho S = map (\<lambda>i. word_rotl (fips_rho_offset (i mod 5) (i div 5)) (S ! i)) [0..<25]"

text \<open>\<open>\<pi>\<close>: \<open>A'[x,y] = A[(x + 3y) mod 5, x]\<close>.\<close>

definition fips_pi :: "lane list \<Rightarrow> lane list" where
  "fips_pi S = map (\<lambda>i. fips_lane S ((i mod 5 + 3 * (i div 5)) mod 5) (i mod 5)) [0..<25]"

text \<open>\<open>\<chi>\<close>: \<open>A'[x,y] = A[x,y] \<oplus> ((A[x+1,y] \<oplus> 1) \<and> A[x+2,y])\<close>.\<close>

definition fips_chi :: "lane list \<Rightarrow> lane list" where
  "fips_chi S =
     map (\<lambda>i. S ! i XOR (NOT (fips_lane S ((i mod 5 + 1) mod 5) (i div 5))
                          AND fips_lane S ((i mod 5 + 2) mod 5) (i div 5))) [0..<25]"

text \<open>
  \<open>\<iota>\<close>: the round constant comes from the linear feedback shift register \<open>rc\<close>
  (Algorithm 5): \<open>R = 10000000\<close>; \<open>t mod 255\<close> times \<open>R = 0 || R\<close>, \<open>R[0], R[4], R[5], R[6]\<close>
  each XORed with \<open>R[8]\<close>, \<open>R\<close> truncated to 8 bits; \<open>rc(t) = R[0]\<close>.  Bit \<open>2^j - 1\<close> of
  \<open>RC\<close> is \<open>rc(j + 7 i\<^sub>r)\<close> for \<open>j = 0 .. 6\<close>, and \<open>RC\<close> is XORed into lane \<open>(0, 0)\<close>.
\<close>

definition fips_rc_step :: "bool list \<Rightarrow> bool list" where
  "fips_rc_step R =
     (let R9 = False # R; b = R9 ! 8
      in take 8 (R9[0 := (R9 ! 0 \<noteq> b), 4 := (R9 ! 4 \<noteq> b), 5 := (R9 ! 5 \<noteq> b),
                    6 := (R9 ! 6 \<noteq> b)]))"

definition fips_rc :: "nat \<Rightarrow> bool" where
  "fips_rc t =
     hd ((fips_rc_step ^^ (t mod 255)) [True, False, False, False, False, False, False, False])"

definition fips_RC :: "nat \<Rightarrow> lane" where
  "fips_RC ir =
     foldr (\<lambda>j w. (if fips_rc (j + 7 * ir) then push_bit (2 ^ j - 1) 1 else 0) OR w) [0..<7] 0"

definition fips_iota :: "lane list \<Rightarrow> nat \<Rightarrow> lane list" where
  "fips_iota S ir = S[0 := S ! 0 XOR fips_RC ir]"

text \<open>\<open>Rnd(A, i\<^sub>r) = \<iota>(\<chi>(\<pi>(\<rho>(\<theta>(A)))), i\<^sub>r)\<close>, and Keccak-p[1600, 24] runs the rounds
  \<open>i\<^sub>r = 12 + 2 \<cdot> 6 - 24 = 0\<close> to \<open>23\<close>.\<close>

definition fips_Rnd :: "lane list \<Rightarrow> nat \<Rightarrow> lane list" where
  "fips_Rnd S ir = fips_iota (fips_chi (fips_pi (fips_rho (fips_theta S)))) ir"

definition Keccak_p_1600_24 :: "lane list \<Rightarrow> lane list" where
  "Keccak_p_1600_24 S = foldl fips_Rnd S [0..<24]"


text \<open>The first 168 outputs \<open>rc(0) .. rc(167)\<close> of the shift register, tabulated.\<close>

definition fips_rc_prefix :: "bool list" where
  "fips_rc_prefix =
     [True, False, False, False, False, False, False, False, True, False, True, True,
      False, False, False, True, True, True, True, False, True, False, False, False,
      False, True, True, True, True, True, True, True, True, False, False, True,
      False, False, False, False, True, False, True, False, False, True, True, True,
      True, True, False, True, False, True, False, True, False, True, True, True,
      False, False, False, False, False, True, True, False, False, False, True, False,
      True, False, True, True, False, False, True, True, False, False, True, False,
      True, True, True, True, True, True, False, True, True, True, True, False, False,
      True, True, False, True, True, True, False, True, True, True, False, False,
      True, False, True, False, True, False, False, True, False, True, False, False,
      False, True, False, False, True, False, True, True, False, True, False, False,
      False, True, True, False, False, True, True, True, False, False, True, True,
      True, True, False, False, False, True, True, False, True, True, False, False,
      False, False, True, False, False, False, True, False, True, True, True]"

text \<open>The first \<open>n\<close> outputs of the shift register started in state \<open>R\<close>.\<close>

primrec fips_rc_bits :: "nat \<Rightarrow> bool list \<Rightarrow> bool list" where
  "fips_rc_bits 0 R = []"
| "fips_rc_bits (Suc n) R = hd R # fips_rc_bits n (fips_rc_step R)"

section \<open>The F-chain driver (f-threshold.c)\<close>

text \<open>
  \<^verbatim>\<open>chain_state[N + (SPX_OFFSET_HASH_ADDR/8)] += 1ULL << (8*(SPX_OFFSET_HASH_ADDR%8));\<close>
  The chain state is the array of \<open>3 * 25\<close> lanes; the addition wraps modulo \<open>2^64\<close>.
\<close>

definition increment_hash_addr_in_chain_state :: "spx_params \<Rightarrow> lane list \<Rightarrow> lane list" where
  "increment_hash_addr_in_chain_state P chain_state =
     chain_state[N P + SPX_OFFSET_HASH_ADDR P div 8 :=
       chain_state ! (N P + SPX_OFFSET_HASH_ADDR P div 8)
         + push_bit (8 * (SPX_OFFSET_HASH_ADDR P mod 8)) 1]"

section \<open>Masked rounds compute on the XOR of the shares\<close>

lemma ROL_xor: "ROL (a XOR b) n = ROL a n XOR ROL b n"
  by (simp add: ROL_def push_bit_xor drop_bit_xor ac_simps)

lemma xor_share_rows:
  "xor_share (Ab, Ag, Ak, Am, As) (Bb, Bg, Bk, Bm, Bs) =
     (xor_row Ab Bb, xor_row Ag Bg, xor_row Ak Bk, xor_row Am Bm, xor_row As Bs)"
  by (simp add: xor_share_def)

lemma theta_D_xor: "\<And>A B. theta_D (xor_share A B) = xor_row (theta_D A) (theta_D B)"
  apply (simp only: split_paired_all)
  apply (simp only: theta_D_def xor_share_def xor_row_def prod.case Let_def ROL_xor)
  apply (simp only: ac_simps)
  done

lemma STEP1_xor:
  "\<And>A B D E. STEP1 (xor_share A B) (xor_row D E) = xor_row (STEP1 A D) (STEP1 B E)"
  apply (simp only: split_paired_all)
  apply (simp only: STEP1_def xor_share_def xor_row_def prod.case ROL_xor)
  apply (simp only: ac_simps)
  done

lemma STEP2_xor:
  "\<And>A B D E. STEP2 (xor_share A B) (xor_row D E) = xor_row (STEP2 A D) (STEP2 B E)"
  apply (simp only: split_paired_all)
  apply (simp only: STEP2_def xor_share_def xor_row_def prod.case ROL_xor)
  apply (simp only: ac_simps)
  done

lemma STEP3_xor:
  "\<And>A B D E. STEP3 (xor_share A B) (xor_row D E) = xor_row (STEP3 A D) (STEP3 B E)"
  apply (simp only: split_paired_all)
  apply (simp only: STEP3_def xor_share_def xor_row_def prod.case ROL_xor)
  apply (simp only: ac_simps)
  done

lemma STEP4_xor:
  "\<And>A B D E. STEP4 (xor_share A B) (xor_row D E) = xor_row (STEP4 A D) (STEP4 B E)"
  apply (simp only: split_paired_all)
  apply (simp only: STEP4_def xor_share_def xor_row_def prod.case ROL_xor)
  apply (simp only: ac_simps)
  done

lemma STEP5_xor:
  "\<And>A B D E. STEP5 (xor_share A B) (xor_row D E) = xor_row (STEP5 A D) (STEP5 B E)"
  apply (simp only: split_paired_all)
  apply (simp only: STEP5_def xor_share_def xor_row_def prod.case ROL_xor)
  apply (simp only: ac_simps)
  done

lemma chi_lane_3:
  "(a0 XOR (NOT x0 AND y0) XOR (NOT x1 AND y1) XOR (NOT x2 AND y2))
     XOR (a1 XOR (NOT x0 AND y1) XOR (NOT x1 AND y2) XOR (NOT x2 AND y0))
     XOR (a2 XOR (NOT x0 AND y2) XOR (NOT x1 AND y0) XOR (NOT x2 AND y1))
   = (a0 XOR a1 XOR a2) XOR (NOT (x0 XOR x1 XOR x2) AND (y0 XOR y1 XOR y2))"
  for a0 :: lane
  by (rule bit_word_eqI) (simp add: bit_simps, blast)

lemma chi_row_3_xor:
  "\<And>X0 X1 X2.
     xor_row (fst (chi_row_3 X0 X1 X2))
       (xor_row (fst (snd (chi_row_3 X0 X1 X2))) (snd (snd (chi_row_3 X0 X1 X2))))
     = chi_row (xor_row X0 (xor_row X1 X2))"
  apply (simp only: split_paired_all)
  apply (simp only: chi_row_3_def chi_row_def xor_row_def prod.case fst_conv snd_conv
      chi_lane_3)
  done

lemma xor_round_constant_xor:
  "\<And>E F. xor_row (xor_round_constant rc E) F = xor_round_constant rc (xor_row E F)"
  apply (simp only: split_paired_all)
  apply (simp only: xor_round_constant_def xor_row_def prod.case)
  apply (simp only: ac_simps)
  done

lemma round_Keccak_3_logical:
  "logical_share (round_Keccak_3 rc A) = round_Keccak_1 rc (logical_share A)"
proof -
  obtain A0 A1 A2 where A: "A = (A0, A1, A2)"
    by (cases A) auto
  show ?thesis
    unfolding A
    apply (simp only: round_Keccak_3_def round_Keccak_1_def logical_share_def Let_def
        split_beta prod.case fst_conv snd_conv xor_share_rows)
    apply (simp only: theta_D_xor STEP1_xor STEP2_xor STEP3_xor STEP4_xor STEP5_xor
        chi_row_3_xor xor_round_constant_xor)
    done
qed

section \<open>A round of the code is a round of FIPS 202\<close>

lemma fips_rho_offset_table:
  "map (\<lambda>i. fips_rho_offset (i mod 5) (i div 5)) [0..<25] =
     [0, 1, 62, 28, 27, 36, 44, 6, 55, 20, 3, 10, 43, 25, 39, 41, 45, 15, 21, 8,
      18, 2, 61, 56, 14]"
  by code_simp

lemma fips_rc_bits_nth:
  "t < n \<Longrightarrow> fips_rc_bits n R ! t = hd ((fips_rc_step ^^ t) R)"
proof (induction n arbitrary: R t)
  case 0
  then show ?case by simp
next
  case (Suc n)
  show ?case
  proof (cases t)
    case 0
    then show ?thesis by simp
  next
    case (Suc t')
    with Suc.prems have "t' < n" by simp
    then show ?thesis using Suc.IH [of t' "fips_rc_step R"] Suc
      by (simp add: funpow_swap1)
  qed
qed

lemma fips_rc_bits_168:
  "fips_rc_bits 168 [True, False, False, False, False, False, False, False] = fips_rc_prefix"
  by code_simp

lemma fips_rc_code [code]:
  "fips_rc t =
     (if t < 168 then fips_rc_prefix ! t
      else hd ((fips_rc_step ^^ (t mod 255))
                [True, False, False, False, False, False, False, False]))"
  by (simp add: fips_rc_def fips_rc_bits_nth flip: fips_rc_bits_168)

lemma fips_RC_table: "map fips_RC [0..<24] = KeccakF_RoundConstants"
  by code_simp

lemma fips_RC_nth: "ir < 24 \<Longrightarrow> fips_RC ir = KeccakF_RoundConstants ! ir"
  using nth_map [of ir "[0..<24]" fips_RC] by (simp add: fips_RC_table del: upt_rec_numeral)

lemma lanes_of_share_rows:
  "\<And>A. lanes_of_share A = (case A of (Rb, Rg, Rk, Rm, Rs) \<Rightarrow>
      lanes_of_row Rb @ lanes_of_row Rg @ lanes_of_row Rk @ lanes_of_row Rm @ lanes_of_row Rs)"
  apply (simp only: split_paired_all)
  apply (simp only: lanes_of_share_def lanes_of_row_def prod.case append.simps)
  done

lemma ROL_rotl: "0 < n \<Longrightarrow> n < 64 \<Longrightarrow> ROL a n = word_rotl n a"
proof (rule bit_word_eqI)
  fix k assume n: "0 < n" "n < 64" and k: "k < LENGTH(64)"
  have k64: "k < 64" using k by simp
  have L: "bit (ROL a n) k \<longleftrightarrow> ((n \<le> k \<and> bit a (k - n)) \<noteq> bit a (64 - n + k))"
    using k64 by (simp only: ROL_def bit_xor_iff bit_push_bit_iff bit_drop_bit_eq possible_bit_word)
      (simp add: k)
  have R: "bit (word_rotl n a) k \<longleftrightarrow> bit a ((k + (64 - n)) mod 64)"
    using k64 n by (simp only: bit_word_rotl_iff) (simp del: One_nat_def)
  show "bit (ROL a n) k = bit (word_rotl n a) k"
  proof (cases "n \<le> k")
    case True
    then have e: "(k + (64 - n)) mod 64 = k - n" using n k64
      by (simp add: mod_if)
    have "64 \<le> 64 - n + k" using True n by linarith
    then have "\<not> bit a (64 - n + k)"
      using bit_imp_le_length [of a "64 - n + k"] by auto
    then show ?thesis using True unfolding L R e by blast
  next
    case False
    then have e: "(k + (64 - n)) mod 64 = 64 - n + k" using n k64 by simp
    show ?thesis using False unfolding L R e by blast
  qed
qed

lemma theta_D_fips:
  "\<And>A. theta_D A =
     (fips_D (lanes_of_share A) 0, fips_D (lanes_of_share A) 1, fips_D (lanes_of_share A) 2,
      fips_D (lanes_of_share A) 3, fips_D (lanes_of_share A) 4)"
  apply (simp only: split_paired_all)
  apply (simp only: theta_D_def lanes_of_share_def prod.case Let_def)
  apply (simp add: fips_D_def fips_C_def fips_lane_def ROL_rotl)
  done

lemma fips_rho_table:
  "fips_rho S =
     map (\<lambda>i. word_rotl ([0, 1, 62, 28, 27, 36, 44, 6, 55, 20, 3, 10, 43, 25, 39, 41, 45, 15,
                              21, 8, 18, 2, 61, 56, 14] ! i) (S ! i)) [0..<25]"
proof -
  have "fips_rho_offset (i mod 5) (i div 5) =
      [0, 1, 62, 28, 27, 36, 44, 6, 55, 20, 3, 10, 43, 25, 39, 41, 45, 15,
       21, 8, 18, 2, 61, 56, 14] ! i" if "i < 25" for i
    using nth_map [of i "[0..<25]" "\<lambda>i. fips_rho_offset (i mod 5) (i div 5)"] that
    by (simp only: fips_rho_offset_table length_upt nth_upt) simp
  then show ?thesis
    unfolding fips_rho_def by (intro map_cong) simp_all
qed

lemma upt_0_25:
  "[0..<25] = [0, 1, 2, 3, 4, 5, 6, 7, 8, 9, 10, 11, 12, 13, 14, 15, 16, 17, 18, 19,
               20, 21, 22, 23, 24]"
  by code_simp

lemma word_rotl_0: "word_rotl 0 w = w"
  by (rule bit_word_eqI) (simp add: bit_word_rotl_iff)

lemma steps_fips_generic:
  "\<And>A. lanes_of_row (STEP1 A (d 0, d 1, d 2, d 3, d 4)) @
        lanes_of_row (STEP2 A (d 0, d 1, d 2, d 3, d 4)) @
        lanes_of_row (STEP3 A (d 0, d 1, d 2, d 3, d 4)) @
        lanes_of_row (STEP4 A (d 0, d 1, d 2, d 3, d 4)) @
        lanes_of_row (STEP5 A (d 0, d 1, d 2, d 3, d 4))
      = fips_pi (fips_rho (map (\<lambda>i. lanes_of_share A ! i XOR d (i mod 5)) [0..<25]))"
  apply (simp only: split_paired_all)
  apply (simp only: STEP1_def STEP2_def STEP3_def STEP4_def STEP5_def lanes_of_share_def
      lanes_of_row_def prod.case append.simps)
  apply (simp add: fips_pi_def fips_rho_table fips_lane_def ROL_rotl upt_0_25 word_rotl_0)
  done

lemma chi_fips:
  "\<And>Rb Rg Rk Rm Rs.
     lanes_of_row (chi_row Rb) @ lanes_of_row (chi_row Rg) @ lanes_of_row (chi_row Rk) @
       lanes_of_row (chi_row Rm) @ lanes_of_row (chi_row Rs)
     = fips_chi (lanes_of_row Rb @ lanes_of_row Rg @ lanes_of_row Rk @ lanes_of_row Rm @
         lanes_of_row Rs)"
  apply (simp only: split_paired_all)
  apply (simp only: chi_row_def lanes_of_row_def prod.case append.simps)
  apply (simp add: fips_chi_def fips_lane_def upt_0_25)
  done

lemma iota_fips:
  "\<And>Rb. lanes_of_row (xor_round_constant (fips_RC ir) Rb) @ L
     = fips_iota (lanes_of_row Rb @ L) ir"
  apply (simp only: split_paired_all)
  apply (simp only: xor_round_constant_def lanes_of_row_def prod.case append.simps)
  apply (simp add: fips_iota_def)
  done

lemma round_Keccak_1_fips:
  assumes "ir < 24"
  shows "lanes_of_share (round_Keccak_1 (KeccakF_RoundConstants ! ir) A)
    = fips_Rnd (lanes_of_share A) ir"
proof -
  let ?S = "lanes_of_share A"
  let ?d = "fips_D ?S"
  have D: "theta_D A = (?d 0, ?d 1, ?d 2, ?d 3, ?d 4)"
    by (rule theta_D_fips)
  have "lanes_of_share (round_Keccak_1 (fips_RC ir) A)
      = fips_iota (fips_chi (fips_pi (fips_rho (map (\<lambda>i. ?S ! i XOR ?d (i mod 5)) [0..<25])))) ir"
    unfolding round_Keccak_1_def Let_def D
    by (simp only: lanes_of_share_rows prod.case iota_fips chi_fips steps_fips_generic)
  then show ?thesis
    using assms by (simp add: fips_Rnd_def fips_theta_def fips_RC_nth)
qed

section \<open>The two schedules run 24 rounds on the logical state\<close>

lemma logical_share_LOADSTATE:
  "lanes_of_share (logical_share (LOADSTATE instate 0, LOADSTATE instate 1, LOADSTATE instate 2))
     = logical_state instate"
  apply (simp only: logical_share_def LOADSTATE_def fst_conv snd_conv xor_share_def xor_row_def
      prod.case lanes_of_share_def logical_state_def upt_0_25 list.map)
  apply simp
  done

lemma fst_step_Do_Xor: "fst (step_Do_Xor A) = logical_share A"
  by (simp add: step_Do_Xor_def logical_share_def split_beta)

lemma snd_step_Do_Xor: "snd (step_Do_Xor A) = snd A"
  by (simp add: step_Do_Xor_def split_beta)

lemma xor_lane_cancel: "(u XOR t) XOR t = u" for u :: lane
  by (simp add: xor.assoc)

lemma xor_share_cancel: "\<And>U T. xor_share (xor_share U T) T = U"
  apply (simp only: split_paired_all)
  apply (simp only: xor_share_def xor_row_def prod.case xor_lane_cancel)
  done

lemma logical_step_Do_Xor: "logical_share (step_Do_Xor A) = fst A"
  by (simp add: step_Do_Xor_def logical_share_def split_beta xor_share_cancel)

lemma rounds_Keccak_1_Suc:
  "rounds_Keccak_1 r (Suc k) A0
     = rounds_Keccak_1 (Suc r) k (round_Keccak_1 (KeccakF_RoundConstants ! r) A0)"
proof -
  have "[r..<r + Suc k] = r # [Suc r..<Suc r + k]"
    by (simp only: upt_conv_Cons [of r "r + Suc k"] less_add_Suc1 add_Suc_shift add_Suc)
  then show ?thesis
    by (simp only: rounds_Keccak_1_def fold_simps)
qed

lemma rounds_Keccak_3_Suc:
  "rounds_Keccak_3 r (Suc k) A
     = rounds_Keccak_3 (Suc r) k (round_Keccak_3 (KeccakF_RoundConstants ! r) A)"
proof -
  have "[r..<r + Suc k] = r # [Suc r..<Suc r + k]"
    by (simp only: upt_conv_Cons [of r "r + Suc k"] less_add_Suc1 add_Suc_shift add_Suc)
  then show ?thesis
    by (simp only: rounds_Keccak_3_def fold_simps)
qed

lemma keccak_schedule_Keccak_1:
  "keccak_schedule (replicate k Keccak_1 @ state) r A outstate
     = keccak_schedule state (r + k) (rounds_Keccak_1 r k (fst A), snd A) outstate"
proof (induction k arbitrary: r A)
  case 0
  show ?case by (simp add: rounds_Keccak_1_def)
next
  case (Suc k)
  show ?case
    by (simp add: Suc.IH rounds_Keccak_1_Suc)
qed

lemma keccak_schedule_Keccak_3:
  "keccak_schedule (replicate k Keccak_3 @ state) r A outstate
     = keccak_schedule state (r + k) (rounds_Keccak_3 r k A) outstate"
proof (induction k arbitrary: r A)
  case 0
  show ?case by (simp add: rounds_Keccak_3_def)
next
  case (Suc k)
  show ?case
    by (simp add: Suc.IH rounds_Keccak_3_Suc)
qed

lemma rounds_Keccak_3_logical:
  "logical_share (rounds_Keccak_3 r k A) = rounds_Keccak_1 r k (logical_share A)"
proof (induction k arbitrary: r A)
  case 0
  show ?case by (simp add: rounds_Keccak_3_def rounds_Keccak_1_def)
next
  case (Suc k)
  show ?case
    by (simp only: rounds_Keccak_3_Suc rounds_Keccak_1_Suc Suc.IH round_Keccak_3_logical)
qed

lemma upt_shift_Cons: "[r..<r + Suc k] = r # [Suc r..<Suc r + k]"
  by (simp only: upt_conv_Cons [of r "r + Suc k"] less_add_Suc1 add_Suc_shift add_Suc)

lemma rounds_Keccak_1_fips:
  "r + k \<le> 24 \<Longrightarrow>
     lanes_of_share (rounds_Keccak_1 r k A0) = foldl fips_Rnd (lanes_of_share A0) [r..<r + k]"
proof (induction k arbitrary: r A0)
  case 0
  show ?case by (simp add: rounds_Keccak_1_def)
next
  case (Suc k)
  have r: "r < 24" and le: "Suc r + k \<le> 24" using Suc.prems by simp_all
  have "lanes_of_share (rounds_Keccak_1 r (Suc k) A0)
      = foldl fips_Rnd (lanes_of_share (round_Keccak_1 (KeccakF_RoundConstants ! r) A0))
          [Suc r..<Suc r + k]"
    by (simp only: rounds_Keccak_1_Suc Suc.IH [OF le])
  also have "\<dots> = foldl fips_Rnd (lanes_of_share A0) (r # [Suc r..<Suc r + k])"
    by (simp only: round_Keccak_1_fips [OF r] foldl.simps)
  finally show ?case
    by (simp only: upt_shift_Cons)
qed

lemma rounds_Keccak_1_add:
  "rounds_Keccak_1 (r + j) k (rounds_Keccak_1 r j A0) = rounds_Keccak_1 r (j + k) A0"
proof -
  have "[r..<r + (j + k)] = [r..<r + j] @ [r + j..<r + j + k]"
    using upt_add_eq_append [of r "r + j" k] by (simp add: add.assoc)
  then show ?thesis
    by (simp only: rounds_Keccak_1_def fold_append comp_def)
qed

lemma standard_output_blocks:
  "standard_output = replicate 3 Keccak_3 @ Do_Xor # replicate 21 Keccak_1 @ [Output_1]"
  unfolding standard_output_def by code_simp

lemma threshold_output_blocks:
  "threshold_output =
     replicate 3 Keccak_3 @ Do_Xor # replicate 18 Keccak_1 @ Do_Xor # replicate 3 Keccak_3
       @ [Output_3]"
  unfolding threshold_output_def by code_simp

lemma standard_output_run:
  "keccak_schedule standard_output 0 A outstate
     = DO_OUTPUT (rounds_Keccak_1 0 24 (logical_share A)) 0 outstate"
proof -
  have "keccak_schedule standard_output 0 A outstate
      = DO_OUTPUT (rounds_Keccak_1 3 21 (logical_share (rounds_Keccak_3 0 3 A))) 0 outstate"
    by (simp only: standard_output_blocks keccak_schedule_Keccak_3 keccak_schedule_Keccak_1
        keccak_schedule.simps keccak_state.case fst_step_Do_Xor fst_conv append.simps)
      simp
  also have "rounds_Keccak_1 3 21 (logical_share (rounds_Keccak_3 0 3 A))
      = rounds_Keccak_1 0 24 (logical_share A)"
    using rounds_Keccak_1_add [of 0 3 21 "logical_share A"]
    by (simp only: rounds_Keccak_3_logical) simp
  finally show ?thesis .
qed

lemma threshold_output_run:
  "\<exists>B. keccak_schedule threshold_output 0 A outstate
         = DO_OUTPUT (snd (snd B)) 2 (DO_OUTPUT (fst (snd B)) 1 (DO_OUTPUT (fst B) 0 outstate))
       \<and> logical_share B = rounds_Keccak_1 0 24 (logical_share A)"
proof -
  let ?T = "rounds_Keccak_3 0 3 A"
  let ?U = "rounds_Keccak_1 3 18 (logical_share ?T)"
  let ?B = "rounds_Keccak_3 21 3 (step_Do_Xor (?U, snd ?T))"
  have run: "keccak_schedule threshold_output 0 A outstate
      = DO_OUTPUT (snd (snd ?B)) 2 (DO_OUTPUT (fst (snd ?B)) 1 (DO_OUTPUT (fst ?B) 0 outstate))"
    by (simp only: threshold_output_blocks keccak_schedule_Keccak_3 keccak_schedule_Keccak_1
        keccak_schedule.simps keccak_state.case fst_step_Do_Xor snd_step_Do_Xor fst_conv
        snd_conv append.simps)
      simp
  have "logical_share ?B = rounds_Keccak_1 21 3 ?U"
    by (simp only: rounds_Keccak_3_logical logical_step_Do_Xor fst_conv)
  also have "\<dots> = rounds_Keccak_1 0 24 (logical_share A)"
    using rounds_Keccak_1_add [of 0 3 18 "logical_share A"]
      rounds_Keccak_1_add [of 0 21 3 "logical_share A"]
    by (simp only: rounds_Keccak_3_logical) simp
  finally show ?thesis using run by blast
qed

lemma rounds_Keccak_1_Keccak_p:
  "lanes_of_share (rounds_Keccak_1 0 24 A0) = Keccak_p_1600_24 (lanes_of_share A0)"
  using rounds_Keccak_1_fips [of 0 24 A0] by (simp add: Keccak_p_1600_24_def)

lemma length_lanes_of_share: "\<And>A. length (lanes_of_share A) = 25"
  apply (simp only: split_paired_all)
  apply (simp only: lanes_of_share_def prod.case)
  apply simp
  done

lemma lanes_of_xor_share:
  "\<And>A B. lanes_of_share (xor_share A B) = map2 (XOR) (lanes_of_share A) (lanes_of_share B)"
  apply (simp only: split_paired_all)
  apply (simp only: lanes_of_share_def xor_share_def xor_row_def prod.case)
  apply simp
  done

lemma lanes_of_logical_share:
  assumes "i < 25"
  shows "lanes_of_share (logical_share A) ! i
    = lanes_of_share (fst A) ! i XOR lanes_of_share (fst (snd A)) ! i
        XOR lanes_of_share (snd (snd A)) ! i"
  using assms by (simp add: logical_share_def lanes_of_xor_share length_lanes_of_share)

lemma DO_OUTPUT_length: "\<And>A. length (DO_OUTPUT A x outstate) = length outstate"
  apply (simp only: split_paired_all)
  apply (simp only: DO_OUTPUT_def prod.case)
  apply simp
  done

lemma DO_OUTPUT_written:
  "\<And>A. 25 * x + 4 \<le> length outstate \<Longrightarrow> i < 4 \<Longrightarrow>
     DO_OUTPUT A x outstate ! (25 * x + i) = lanes_of_share A ! i"
  apply (simp only: split_paired_all)
  apply (simp only: DO_OUTPUT_def lanes_of_share_def prod.case)
  apply (subgoal_tac "i = 0 \<or> i = 1 \<or> i = 2 \<or> i = 3")
   apply (auto simp: nth_list_update)
  done

lemma DO_OUTPUT_other:
  "\<And>A. j < 25 * x \<or> 25 * x + 4 \<le> j \<Longrightarrow> DO_OUTPUT A x outstate ! j = outstate ! j"
  apply (simp only: split_paired_all)
  apply (simp only: DO_OUTPUT_def prod.case)
  apply auto
  done

lemma permutation_unmasked:
  assumes "4 \<le> length outstate" and "i < 4"
  shows "do_threshold_keccak_permutation instate outstate 0 ! i
    = Keccak_p_1600_24 (logical_state instate) ! i"
proof -
  let ?A = "(LOADSTATE instate 0, LOADSTATE instate 1, LOADSTATE instate 2)"
  have "do_threshold_keccak_permutation instate outstate 0
      = DO_OUTPUT (rounds_Keccak_1 0 24 (logical_share ?A)) 0 outstate"
    by (simp add: do_threshold_keccak_permutation_def standard_output_run)
  then have "do_threshold_keccak_permutation instate outstate 0 ! i
      = lanes_of_share (rounds_Keccak_1 0 24 (logical_share ?A)) ! i"
    using DO_OUTPUT_written [of 0 outstate i] assms by simp
  then show ?thesis
    by (simp only: rounds_Keccak_1_Keccak_p logical_share_LOADSTATE)
qed

lemma permutation_masked:
  assumes "output_threshold \<noteq> 0" and "54 \<le> length outstate" and "i < 4"
  shows "do_threshold_keccak_permutation instate outstate output_threshold ! i
      XOR do_threshold_keccak_permutation instate outstate output_threshold ! (25 + i)
      XOR do_threshold_keccak_permutation instate outstate output_threshold ! (50 + i)
    = Keccak_p_1600_24 (logical_state instate) ! i"
proof -
  let ?A = "(LOADSTATE instate 0, LOADSTATE instate 1, LOADSTATE instate 2)"
  let ?out = "do_threshold_keccak_permutation instate outstate output_threshold"
  obtain B where run: "keccak_schedule threshold_output 0 ?A outstate
        = DO_OUTPUT (snd (snd B)) 2 (DO_OUTPUT (fst (snd B)) 1 (DO_OUTPUT (fst B) 0 outstate))"
    and B: "logical_share B = rounds_Keccak_1 0 24 (logical_share ?A)"
    using threshold_output_run [of ?A outstate] by blast
  have out: "?out
      = DO_OUTPUT (snd (snd B)) 2 (DO_OUTPUT (fst (snd B)) 1 (DO_OUTPUT (fst B) 0 outstate))"
    using assms(1) run by (simp add: do_threshold_keccak_permutation_def)
  have o0: "?out ! i = lanes_of_share (fst B) ! i"
    using assms(2,3) DO_OUTPUT_written [of 0 outstate i "fst B"]
    by (simp add: out DO_OUTPUT_other)
  have o1: "?out ! (25 + i) = lanes_of_share (fst (snd B)) ! i"
    using assms(2,3) DO_OUTPUT_written [of 1 "DO_OUTPUT (fst B) 0 outstate" i "fst (snd B)"]
    by (simp add: out DO_OUTPUT_other DO_OUTPUT_length)
  have o2: "?out ! (50 + i) = lanes_of_share (snd (snd B)) ! i"
    using assms(2,3)
      DO_OUTPUT_written [of 2 "DO_OUTPUT (fst (snd B)) 1 (DO_OUTPUT (fst B) 0 outstate)" i
        "snd (snd B)"]
    by (simp add: out DO_OUTPUT_length)
  have "i < 25" using assms(3) by simp
  then have "?out ! i XOR ?out ! (25 + i) XOR ?out ! (50 + i)
      = lanes_of_share (logical_share B) ! i"
    by (simp only: o0 o1 o2 lanes_of_logical_share)
  then show ?thesis
    by (simp only: B rounds_Keccak_1_Keccak_p logical_share_LOADSTATE)
qed

lemma logical_state_unshared:
  assumes "length x = 25"
  shows "logical_state (x @ replicate 50 0) = x"
proof (rule nth_equalityI)
  show "length (logical_state (x @ replicate 50 0)) = length x"
    using assms by (simp add: logical_state_def)
next
  fix i assume "i < length (logical_state (x @ replicate 50 0))"
  then have i: "i < 25" by (simp add: logical_state_def)
  then show "logical_state (x @ replicate 50 0) ! i = x ! i"
    using assms by (simp add: logical_state_def nth_append)
qed

section \<open>The threshold permutation is Keccak-p[1600, 24] on the logical state\<close>

text \<open>
  C1.  For every input of 75 lanes, \<^verbatim>\<open>do_threshold_keccak_permutation\<close> computes the standard
  24-round Keccak-p[1600] permutation of the logical state
  \<open>S = in[0..25) XOR in[25..50) XOR in[50..75)\<close>.  With \<^verbatim>\<open>output_threshold = 0\<close> the output
  lanes 0 to 3 are the first four lanes of the permuted state; with a nonzero
  \<^verbatim>\<open>output_threshold\<close> the three output shares at lane offsets 0, 25 and 50 XOR to these
  four lanes.  In particular, on the input \<open>(x, 0, 0)\<close> the unmasked output is the first
  four lanes of Keccak-p[1600, 24] of \<open>x\<close>.  The output array must hold the lanes that are
  written: 4 in the first case, 54 in the second.
\<close>

theorem threshold_permutation_is_Keccak_p:
  assumes "length instate = 75"
  shows "(4 \<le> length outstate \<longrightarrow>
            (\<forall>i<4. do_threshold_keccak_permutation instate outstate 0 ! i
                     = Keccak_p_1600_24 (logical_state instate) ! i))
       \<and> (output_threshold \<noteq> 0 \<and> 54 \<le> length outstate \<longrightarrow>
            (\<forall>i<4. do_threshold_keccak_permutation instate outstate output_threshold ! i
                       XOR do_threshold_keccak_permutation instate outstate output_threshold ! (25 + i)
                       XOR do_threshold_keccak_permutation instate outstate output_threshold ! (50 + i)
                     = Keccak_p_1600_24 (logical_state instate) ! i))
       \<and> (instate = x @ replicate 50 0 \<and> 4 \<le> length outstate \<longrightarrow>
            (\<forall>i<4. do_threshold_keccak_permutation instate outstate 0 ! i
                     = Keccak_p_1600_24 x ! i))"
proof (intro conjI impI allI)
  fix i :: nat
  assume "4 \<le> length outstate" and "i < 4"
  then show "do_threshold_keccak_permutation instate outstate 0 ! i
      = Keccak_p_1600_24 (logical_state instate) ! i"
    by (rule permutation_unmasked)
next
  fix i :: nat
  assume "output_threshold \<noteq> 0 \<and> 54 \<le> length outstate" and "i < 4"
  then show "do_threshold_keccak_permutation instate outstate output_threshold ! i
      XOR do_threshold_keccak_permutation instate outstate output_threshold ! (25 + i)
      XOR do_threshold_keccak_permutation instate outstate output_threshold ! (50 + i)
    = Keccak_p_1600_24 (logical_state instate) ! i"
    by (simp add: permutation_masked)
next
  fix i :: nat
  assume x: "instate = x @ replicate 50 0 \<and> 4 \<le> length outstate" and i: "i < 4"
  then have "length x = 25" using assms by simp
  then have "logical_state instate = x"
    using x by (simp add: logical_state_unshared)
  then show "do_threshold_keccak_permutation instate outstate 0 ! i = Keccak_p_1600_24 x ! i"
    using permutation_unmasked [of outstate i instate] x i by simp
qed

theorem threshold_permutation_is_Keccak_p_witness:
  "length (replicate 25 (7 :: lane) @ replicate 50 0) = 75
   \<and> do_threshold_keccak_permutation (replicate 25 7 @ replicate 50 0) (replicate 75 0) 0 ! 3
       = Keccak_p_1600_24 (replicate 25 7) ! 3
   \<and> do_threshold_keccak_permutation (replicate 25 7 @ replicate 50 0) (replicate 75 0) 1 ! 3
         XOR do_threshold_keccak_permutation (replicate 25 7 @ replicate 50 0)
           (replicate 75 0) 1 ! (25 + 3)
         XOR do_threshold_keccak_permutation (replicate 25 7 @ replicate 50 0)
           (replicate 75 0) 1 ! (50 + 3)
       = Keccak_p_1600_24 (logical_state (replicate 25 7 @ replicate 50 0)) ! 3"
proof -
  have len: "length (replicate 25 (7 :: lane) @ replicate 50 0) = 75"
    by simp
  have i: "(3 :: nat) < 4"
    by simp
  note T = threshold_permutation_is_Keccak_p
    [OF len, of "replicate 75 0" 1 "replicate 25 7"]
  have "do_threshold_keccak_permutation (replicate 25 7 @ replicate 50 0) (replicate 75 0) 0 ! 3
       = Keccak_p_1600_24 (replicate 25 7) ! 3"
    by (rule T [THEN conjunct2, THEN conjunct2, THEN mp, THEN spec, THEN mp, OF _ i]) simp
  moreover have
    "do_threshold_keccak_permutation (replicate 25 7 @ replicate 50 0) (replicate 75 0) 1 ! 3
         XOR do_threshold_keccak_permutation (replicate 25 7 @ replicate 50 0)
           (replicate 75 0) 1 ! (25 + 3)
         XOR do_threshold_keccak_permutation (replicate 25 7 @ replicate 50 0)
           (replicate 75 0) 1 ! (50 + 3)
       = Keccak_p_1600_24 (logical_state (replicate 25 7 @ replicate 50 0)) ! 3"
    by (rule T [THEN conjunct2, THEN conjunct1, THEN mp, THEN spec, THEN mp, OF _ i]) simp
  ultimately show ?thesis
    using len by (intro conjI)
qed

section \<open>Masking soundness\<close>

text \<open>
  C7.  Two runs on inputs of 75 lanes with the same logical state and the same
  \<^verbatim>\<open>output_threshold\<close> give the same logical output: the same four output lanes when the
  output is unmasked, and output shares with the same lane-wise XOR of the first four
  lanes when it is masked.  The output arrays of the two runs may differ; each must hold
  the lanes that are written.
\<close>

theorem masking_soundness:
  assumes "length instate1 = 75" and "length instate2 = 75"
    and "logical_state instate1 = logical_state instate2"
  shows "(4 \<le> length outstate1 \<and> 4 \<le> length outstate2 \<longrightarrow>
            (\<forall>i<4. do_threshold_keccak_permutation instate1 outstate1 0 ! i
                     = do_threshold_keccak_permutation instate2 outstate2 0 ! i))
       \<and> (output_threshold \<noteq> 0 \<and> 54 \<le> length outstate1 \<and> 54 \<le> length outstate2 \<longrightarrow>
            (\<forall>i<4. do_threshold_keccak_permutation instate1 outstate1 output_threshold ! i
                       XOR do_threshold_keccak_permutation instate1 outstate1 output_threshold ! (25 + i)
                       XOR do_threshold_keccak_permutation instate1 outstate1 output_threshold ! (50 + i)
                     = do_threshold_keccak_permutation instate2 outstate2 output_threshold ! i
                       XOR do_threshold_keccak_permutation instate2 outstate2 output_threshold ! (25 + i)
                       XOR do_threshold_keccak_permutation instate2 outstate2 output_threshold ! (50 + i)))"
proof (intro conjI impI allI)
  fix i :: nat
  assume "4 \<le> length outstate1 \<and> 4 \<le> length outstate2" and "i < 4"
  then show "do_threshold_keccak_permutation instate1 outstate1 0 ! i
      = do_threshold_keccak_permutation instate2 outstate2 0 ! i"
    using permutation_unmasked [of outstate1 i instate1]
      permutation_unmasked [of outstate2 i instate2]
    by (simp add: assms(3))
next
  fix i :: nat
  assume h: "output_threshold \<noteq> 0 \<and> 54 \<le> length outstate1 \<and> 54 \<le> length outstate2"
    and i: "i < 4"
  from h have t: "output_threshold \<noteq> 0" and o1: "54 \<le> length outstate1"
    and o2: "54 \<le> length outstate2"
    by simp_all
  have "do_threshold_keccak_permutation instate1 outstate1 output_threshold ! i
      XOR do_threshold_keccak_permutation instate1 outstate1 output_threshold ! (25 + i)
      XOR do_threshold_keccak_permutation instate1 outstate1 output_threshold ! (50 + i)
    = Keccak_p_1600_24 (logical_state instate1) ! i"
    by (rule permutation_masked [OF t o1 i])
  also have "\<dots> = Keccak_p_1600_24 (logical_state instate2) ! i"
    by (simp only: assms(3))
  also have "\<dots> = do_threshold_keccak_permutation instate2 outstate2 output_threshold ! i
      XOR do_threshold_keccak_permutation instate2 outstate2 output_threshold ! (25 + i)
      XOR do_threshold_keccak_permutation instate2 outstate2 output_threshold ! (50 + i)"
    by (rule permutation_masked [OF t o2 i, symmetric])
  finally show "do_threshold_keccak_permutation instate1 outstate1 output_threshold ! i
      XOR do_threshold_keccak_permutation instate1 outstate1 output_threshold ! (25 + i)
      XOR do_threshold_keccak_permutation instate1 outstate1 output_threshold ! (50 + i)
    = do_threshold_keccak_permutation instate2 outstate2 output_threshold ! i
      XOR do_threshold_keccak_permutation instate2 outstate2 output_threshold ! (25 + i)
      XOR do_threshold_keccak_permutation instate2 outstate2 output_threshold ! (50 + i)" .
qed

theorem masking_soundness_witness:
  "logical_state (replicate 75 (0 :: lane)) = logical_state (replicate 50 5 @ replicate 25 0)
   \<and> do_threshold_keccak_permutation (replicate 75 0) (replicate 75 0) 0 ! 0
       = do_threshold_keccak_permutation (replicate 50 5 @ replicate 25 0) (replicate 75 0) 0 ! 0
   \<and> do_threshold_keccak_permutation (replicate 75 0) (replicate 75 0) 1 ! 0
         XOR do_threshold_keccak_permutation (replicate 75 0) (replicate 75 0) 1 ! (25 + 0)
         XOR do_threshold_keccak_permutation (replicate 75 0) (replicate 75 0) 1 ! (50 + 0)
       = do_threshold_keccak_permutation (replicate 50 5 @ replicate 25 0) (replicate 75 0) 1 ! 0
         XOR do_threshold_keccak_permutation (replicate 50 5 @ replicate 25 0)
           (replicate 75 0) 1 ! (25 + 0)
         XOR do_threshold_keccak_permutation (replicate 50 5 @ replicate 25 0)
           (replicate 75 0) 1 ! (50 + 0)"
proof -
  have l1: "length (replicate 75 (0 :: lane)) = 75"
    and l2: "length (replicate 50 (5 :: lane) @ replicate 25 0) = 75"
    by simp_all
  have eq: "logical_state (replicate 75 (0 :: lane))
      = logical_state (replicate 50 5 @ replicate 25 0)"
    by (simp add: logical_state_def nth_append)
  have i: "(0 :: nat) < 4"
    by simp
  note T = masking_soundness [OF l1 l2 eq, of "replicate 75 0" "replicate 75 0" 1]
  have "do_threshold_keccak_permutation (replicate 75 0) (replicate 75 0) 0 ! 0
       = do_threshold_keccak_permutation (replicate 50 5 @ replicate 25 0) (replicate 75 0) 0 ! 0"
    by (rule T [THEN conjunct1, THEN mp, THEN spec, THEN mp, OF _ i]) simp
  moreover have "do_threshold_keccak_permutation (replicate 75 0) (replicate 75 0) 1 ! 0
         XOR do_threshold_keccak_permutation (replicate 75 0) (replicate 75 0) 1 ! (25 + 0)
         XOR do_threshold_keccak_permutation (replicate 75 0) (replicate 75 0) 1 ! (50 + 0)
       = do_threshold_keccak_permutation (replicate 50 5 @ replicate 25 0) (replicate 75 0) 1 ! 0
         XOR do_threshold_keccak_permutation (replicate 50 5 @ replicate 25 0)
           (replicate 75 0) 1 ! (25 + 0)
         XOR do_threshold_keccak_permutation (replicate 50 5 @ replicate 25 0)
           (replicate 75 0) 1 ! (50 + 0)"
    by (rule T [THEN conjunct2, THEN mp, THEN spec, THEN mp, OF _ i]) simp
  ultimately show ?thesis
    using eq by (intro conjI)
qed

section \<open>Frame of the hash-address increment\<close>

text \<open>
  C9.  \<^verbatim>\<open>increment_hash_addr_in_chain_state\<close> adds \<open>1 << (8 * (OFFSET_HASH_ADDR mod 8))\<close> to
  lane \<open>N + OFFSET_HASH_ADDR / 8\<close> of the chain state, a lane of share 0 (its index is
  below 25), and leaves every other lane of the three shares as it was.  The address has
  32 bytes, so the offset is below 32, and \<open>n\<close> is 16, 24 or 32.
\<close>

theorem increment_hash_addr_frame:
  assumes "length chain_state = 75"
    and "SPX_N P \<in> {16, 24, 32}"
    and "SPX_OFFSET_HASH_ADDR P < 32"
  shows "N P + SPX_OFFSET_HASH_ADDR P div 8 < 25
    \<and> length (increment_hash_addr_in_chain_state P chain_state) = 75
    \<and> increment_hash_addr_in_chain_state P chain_state ! (N P + SPX_OFFSET_HASH_ADDR P div 8)
        = chain_state ! (N P + SPX_OFFSET_HASH_ADDR P div 8)
            + push_bit (8 * (SPX_OFFSET_HASH_ADDR P mod 8)) 1
    \<and> (\<forall>i < 75. i \<noteq> N P + SPX_OFFSET_HASH_ADDR P div 8 \<longrightarrow>
          increment_hash_addr_in_chain_state P chain_state ! i = chain_state ! i)"
proof -
  have idx: "N P + SPX_OFFSET_HASH_ADDR P div 8 < 25"
    using assms(2,3) by (auto simp: N_def)
  then show ?thesis
    using assms(1) by (simp add: increment_hash_addr_in_chain_state_def)
qed

theorem increment_hash_addr_frame_witness:
  "increment_hash_addr_in_chain_state
      \<lparr>SPX_N = 16, SPX_D = 22, SPX_FULL_HEIGHT = 66, SPX_TREE_HEIGHT = 3,
       SPX_WOTS_LEN = 35, SPX_OFFSET_HASH_ADDR = 31\<rparr> (replicate 75 0) ! 5
     = push_bit 56 1
   \<and> increment_hash_addr_in_chain_state
      \<lparr>SPX_N = 16, SPX_D = 22, SPX_FULL_HEIGHT = 66, SPX_TREE_HEIGHT = 3,
       SPX_WOTS_LEN = 35, SPX_OFFSET_HASH_ADDR = 31\<rparr> (replicate 75 0) ! 4 = 0"
  using increment_hash_addr_frame [of "replicate 75 0"
      "\<lparr>SPX_N = 16, SPX_D = 22, SPX_FULL_HEIGHT = 66, SPX_TREE_HEIGHT = 3,
       SPX_WOTS_LEN = 35, SPX_OFFSET_HASH_ADDR = 31\<rparr>"]
  by (simp add: N_def)

end
